theory Spec2Isabelle
  imports Main "HOL-Library.Word" "HOL-Library.AList"
begin

section \<open>The iconv string converter of IceUtil\<close>

text \<open>
  A shallow embedding of \<^verbatim>\<open>cpp/include/IceUtil/IconvStringConverter.h\<close>: the class template
  \<^verbatim>\<open>IconvStringConverter<charT>\<close> with its constructor, \<^verbatim>\<open>createDescriptors\<close>,
  \<^verbatim>\<open>getDescriptors\<close>, \<^verbatim>\<open>close\<close>, \<^verbatim>\<open>toUTF8\<close> and \<^verbatim>\<open>fromUTF8\<close>.

  Memory is modelled by its contents: a pointer into a buffer is an offset from the start of
  that buffer (\<open>None\<close> for the null pointer), a \<^verbatim>\<open>std::basic_string<charT>\<close> is the list of
  the bytes of its characters (\<^verbatim>\<open>sizeof(charT)\<close> bytes each, the view the code takes through
  \<^verbatim>\<open>reinterpret_cast<char*>\<close>), and \<^verbatim>\<open>size_t\<close> values are natural numbers (no
  wrap-around: the sizes are those of objects in memory). Exceptions are values of a sum type.
  The build is the one with \<^verbatim>\<open>NDEBUG\<close> defined: the \<^verbatim>\<open>assert\<close>s are not modelled.

  The code calls the engine in two ways only: \<^verbatim>\<open>iconv(cd, 0, 0, 0, 0)\<close>, which puts the
  session back into its initial shift state, and the conversion call. It never makes the
  call \<^verbatim>\<open>iconv(cd, 0, 0, &outbuf, &outbytesleft)\<close> by which an engine writes the output it
  still holds in its shift state.
\<close>

subsection \<open>The conversion engine (iconv)\<close>

type_synonym byte = "8 word"

text \<open>
  The values of \<^verbatim>\<open>errno\<close> the model names (their Linux values; only that they differ
  matters).
\<close>

definition E2BIG :: int where
  "E2BIG = 7"

definition EBADF :: int where
  "EBADF = 9"

definition EINVAL :: int where
  "EINVAL = 22"

text \<open>
  The engine is an external library (\<^verbatim>\<open><iconv.h>\<close>), not code of the repository. Its
  conversion tables are a parameter of the model: a \<open>codec\<close> says, for a shift state and the
  input that remains, what converting the next character does: it takes so many input bytes
  and gives these output bytes and a new shift state, or it fails with an \<^verbatim>\<open>errno\<close>
  value. A step may take input and give no output, keeping what it has read in the new shift
  state (an escape sequence, a letter that a following accent may join); \<open>flush\<close> is the
  output a shift state still holds, which the engine writes only in the flush call
  \<^verbatim>\<open>iconv(cd, 0, 0, &outbuf, &outbytesleft)\<close> (the escape sequence that closes
  ISO-2022-JP text, the letter held back).
\<close>

datatype 'st conv_step = Converted nat "byte list" 'st | Failed int

record 'st codec =
  init_state :: 'st
  next_char :: "'st \<Rightarrow> byte list \<Rightarrow> 'st conv_step"
  flush :: "'st \<Rightarrow> byte list"

text \<open>
  What \<^verbatim>\<open>iconv\<close> returns: a count, or \<^verbatim>\<open>(size_t)-1\<close> with \<^verbatim>\<open>errno\<close> set. The
  code reads \<^verbatim>\<open>errno\<close> only right after a call that returned \<^verbatim>\<open>(size_t)-1\<close>, so the
  value travels with the result.
\<close>

datatype iconv_result = Count nat | Errno int

text \<open>
  One call of \<^verbatim>\<open>iconv\<close> on an open session, as the spec describes the engine (section 6:
  "convert buffer, reporting bytes consumed/produced and an insufficient-space condition";
  section 4.2: "the engine preserves partial progress"; the glossary: the shortfall is "the
  conversion engine's signal that it consumed no further input because the provided output
  window is full, distinct from malformed-input failure"). It converts one character at a
  time, moving the input and output cursors; it stops with \<open>E2BIG\<close>, keeping what it has
  done, when the next character does not fit the output window; with \<open>EINVAL\<close> when the
  input ends inside a character (a codec step that takes no input counts as such, so that
  every call ends); with the codec's own error at an invalid character. The result is the new
  shift state, the input left, the bytes written and the return value.

  The call never writes what the shift state holds at the end of the input: that is for the
  flush call. It may have taken input whose output is still held when it reports \<open>E2BIG\<close>.
  The unit of the shortfall is a step of the codec: the engine of this model writes the whole
  output of a step or none of it. (glibc writes the first of the two code points of one
  EUC-JISX0213 character when only the first fits, takes no input and writes it again in the
  next call; the model's engine writes nothing for such a character. In both the input stays
  where it is and the call reports \<open>E2BIG\<close> again.)
\<close>

function iconv_chars ::
  "'st codec \<Rightarrow> 'st \<Rightarrow> byte list \<Rightarrow> nat \<Rightarrow> 'st \<times> byte list \<times> byte list \<times> iconv_result" where
  "iconv_chars c st inbuf outbytesleft =
     (if inbuf = [] then (st, [], [], Count 0)
      else case next_char c st inbuf of
        Failed e \<Rightarrow> (st, inbuf, [], Errno e)
      | Converted n out st' \<Rightarrow>
          if n = 0 \<or> length inbuf < n then (st, inbuf, [], Errno EINVAL)
          else if outbytesleft < length out then (st, inbuf, [], Errno E2BIG)
          else (case iconv_chars c st' (drop n inbuf) (outbytesleft - length out) of
                  (st'', rest, outs, r) \<Rightarrow> (st'', rest, out @ outs, r)))"
  by pat_completeness auto
termination
  by (relation "measure (\<lambda>(c, st, inbuf, outbytesleft). length inbuf)") auto

declare iconv_chars.simps [simp del]

subsection \<open>Process state: open sessions and the thread-specific slot\<close>

text \<open>
  An \<^verbatim>\<open>iconv_t\<close> is a handle; \<^verbatim>\<open>iconv_t(-1)\<close> is the invalid one. The open sessions are
  an association list from handles to the session's codec and shift state. \<open>tls\<close> is the
  value of the converter's \<^verbatim>\<open>pthread_key_t _key\<close> in each thread: the pair the stored
  pointer points to, or \<open>None\<close> for the null pointer.
\<close>

type_synonym iconv_t = int

record 'st world =
  sessions :: "(iconv_t \<times> 'st codec \<times> 'st) list"
  tls :: "nat \<Rightarrow> (iconv_t \<times> iconv_t) option"

text \<open>
  What the platform does, as parameters: which conversions (to, from) the engine can open
  and with which codec, the results of \<^verbatim>\<open>pthread_key_create\<close> and
  \<^verbatim>\<open>pthread_setspecific\<close>, and \<^verbatim>\<open>strerror\<close>.
\<close>

record 'st platform =
  iconv_codec :: "string \<Rightarrow> string \<Rightarrow> 'st codec option"
  key_create_rs :: int
  setspecific_rs :: int
  strerror :: "int \<Rightarrow> string"

text \<open>A handle no open session has; never \<open>-1\<close>.\<close>

fun fresh_cd :: "(iconv_t \<times> 'a) list \<Rightarrow> iconv_t" where
  "fresh_cd [] = 1"
| "fresh_cd ((k, _) # ss) = max (k + 1) (fresh_cd ss)"

definition iconv_open ::
  "'st platform \<Rightarrow> 'st world \<Rightarrow> string \<Rightarrow> string \<Rightarrow> iconv_t \<times> 'st world" where
  "iconv_open P w tocode fromcode =
     (case iconv_codec P tocode fromcode of
        None \<Rightarrow> (- 1, w)
      | Some c \<Rightarrow>
          (let cd = fresh_cd (sessions w)
           in (cd, w\<lparr>sessions := AList.update cd (c, init_state c) (sessions w)\<rparr>)))"

definition iconv_close :: "'st world \<Rightarrow> iconv_t \<Rightarrow> int \<times> 'st world" where
  "iconv_close w cd =
     (if cd \<in> fst ` set (sessions w)
      then (0, w\<lparr>sessions := AList.delete cd (sessions w)\<rparr>)
      else (- 1, w))"

text \<open>
  \<^verbatim>\<open>iconv(cd, 0, 0, 0, 0)\<close>: the session goes back to its initial shift state, and what
  the state held is dropped (there is no output buffer to write it to).
\<close>

definition iconv_reset :: "'st world \<Rightarrow> iconv_t \<Rightarrow> 'st world" where
  "iconv_reset w cd =
     (case map_of (sessions w) cd of
        None \<Rightarrow> w
      | Some (c, st) \<Rightarrow> w\<lparr>sessions := AList.update cd (c, init_state c) (sessions w)\<rparr>)"

text \<open>
  \<^verbatim>\<open>iconv(cd, &inbuf, &inbytesleft, &outbuf, &outbytesleft)\<close>: the input left stands for
  \<^verbatim>\<open>inbuf\<close> and \<^verbatim>\<open>inbytesleft\<close> together; the caller stores the bytes written at
  \<^verbatim>\<open>outbuf\<close> and moves \<^verbatim>\<open>outbuf\<close> and \<^verbatim>\<open>outbytesleft\<close> by their number.
\<close>

definition iconv ::
  "'st world \<Rightarrow> iconv_t \<Rightarrow> byte list \<Rightarrow> nat \<Rightarrow> 'st world \<times> byte list \<times> byte list \<times> iconv_result" where
  "iconv w cd inbuf outbytesleft =
     (case map_of (sessions w) cd of
        None \<Rightarrow> (w, inbuf, [], Errno EBADF)
      | Some (c, st) \<Rightarrow>
          (case iconv_chars c st inbuf outbytesleft of
             (st', rest, out, r) \<Rightarrow>
               (w\<lparr>sessions := AList.update cd (c, st') (sessions w)\<rparr>, rest, out, r)))"

subsection \<open>The converter: construction and the per-thread sessions\<close>

datatype exn =
  IllegalConversionException string
| IconvInitializationException string
| ThreadSyscallException int

text \<open>
  The converter's \<^verbatim>\<open>_internalCode\<close>, and \<^verbatim>\<open>sizeof(charT)\<close> of the template's
  parameter. Its \<^verbatim>\<open>_key\<close> is the \<open>tls\<close> of the world.
\<close>

record converter =
  internalCode :: string
  sizeof_charT :: nat

definition createDescriptors ::
  "converter \<Rightarrow> 'st platform \<Rightarrow> 'st world \<Rightarrow> (exn + iconv_t \<times> iconv_t) \<times> 'st world" where
  "createDescriptors conv P w =
     (let externalCode = ''UTF-8'';
          (first, w1) = iconv_open P w (internalCode conv) externalCode
      in if first = - 1
         then (Inl (IllegalConversionException
                 (''iconv cannot convert from '' @ externalCode @ '' to '' @ internalCode conv)), w1)
         else
           (let (second, w2) = iconv_open P w1 externalCode (internalCode conv)
            in if second = - 1
               then (let (rs, w3) = iconv_close w2 first
                     in (Inl (IllegalConversionException
                           (''iconv cannot convert from '' @ internalCode conv @ '' to '' @ externalCode)), w3))
               else (Inr (first, second), w2)))"

definition close :: "'st world \<Rightarrow> iconv_t \<times> iconv_t \<Rightarrow> 'st world" where
  "close w cdp =
     (let (rs, w1) = iconv_close w (fst cdp);
          (rs', w2) = iconv_close w1 (snd cdp)
      in w2)"

text \<open>
  The constructor: it opens and closes a pair of sessions to check the encoding, then creates
  the thread-specific key, whose value is null in every thread.
\<close>

definition IconvStringConverter ::
  "'st platform \<Rightarrow> 'st world \<Rightarrow> string \<Rightarrow> nat \<Rightarrow> (exn + converter) \<times> 'st world" where
  "IconvStringConverter P w code width =
     (let conv = \<lparr>internalCode = code, sizeof_charT = width\<rparr>
      in case createDescriptors conv P w of
           (Inl (IllegalConversionException reason), w1) \<Rightarrow>
             (Inl (IconvInitializationException reason), w1)
         | (Inl e, w1) \<Rightarrow> (Inl e, w1)
         | (Inr cdp, w1) \<Rightarrow>
             (let w2 = close w1 cdp;
                  rs = key_create_rs P
              in if rs \<noteq> 0 then (Inl (ThreadSyscallException rs), w2)
                 else (Inr conv, w2\<lparr>tls := (\<lambda>t. None)\<rparr>)))"

text \<open>
  \<^verbatim>\<open>getDescriptors\<close> in thread \<open>t\<close>. A \<^verbatim>\<open>pthread_setspecific\<close> that fails leaves the
  slot as it was.
\<close>

definition getDescriptors ::
  "converter \<Rightarrow> 'st platform \<Rightarrow> 'st world \<Rightarrow> nat \<Rightarrow> (exn + iconv_t \<times> iconv_t) \<times> 'st world" where
  "getDescriptors conv P w t =
     (case tls w t of
        Some cdp \<Rightarrow> (Inr cdp, w)
      | None \<Rightarrow>
          (case createDescriptors conv P w of
             (Inl e, w1) \<Rightarrow> (Inl e, w1)
           | (Inr cdp, w1) \<Rightarrow>
               (let rs = setspecific_rs P
                in if rs \<noteq> 0 then (Inl (ThreadSyscallException rs), w1)
                   else (Inr cdp, w1\<lparr>tls := (tls w1)(t \<mapsto> cdp)\<rparr>))))"

subsection \<open>The growable output buffer and the destination string\<close>

text \<open>
  Modelled from the spec: the growable output buffer \<^verbatim>\<open>IceUtil::UTF8Buffer\<close>, an
  abstract class declared in \<^verbatim>\<open>IceUtil/StringConverter.h\<close>, which is not among the sources.
  The spec (sections 3 and 6): it "can be asked for additional contiguous byte capacity on
  demand, preserving previously written bytes and returning a (possibly relocated) write
  cursor", \<^verbatim>\<open>requestMore(minBytes, currentCursor) -> newCursor\<close>. The bytes before the
  cursor passed in are kept (none on the first request, whose cursor is null), the bytes
  asked for follow them, and the cursor returned is where they start. \<open>requests\<close> records
  the calls the buffer has received.
\<close>

record UTF8Buffer =
  storage :: "byte list"
  requests :: "(nat \<times> nat option) list"

definition getMoreBytes :: "nat \<Rightarrow> nat option \<Rightarrow> UTF8Buffer \<Rightarrow> nat \<times> UTF8Buffer" where
  "getMoreBytes howMany firstUnused buf =
     (let used = (case firstUnused of None \<Rightarrow> 0 | Some p \<Rightarrow> p)
      in (used,
          \<lparr>storage = take used (storage buf) @ replicate howMany 0,
           requests = requests buf @ [(howMany, firstUnused)]\<rparr>))"

text \<open>The engine's bytes stored at offset \<open>p\<close> of a memory block.\<close>

definition store_at :: "byte list \<Rightarrow> nat \<Rightarrow> byte list \<Rightarrow> byte list" where
  "store_at mem p out = take p mem @ out @ drop (p + length out) mem"

text \<open>
  \<^verbatim>\<open>std::basic_string<charT>\<close> as the bytes of its characters: \<^verbatim>\<open>size()\<close> and
  \<^verbatim>\<open>resize(n)\<close>, which cuts the string or appends characters \<^verbatim>\<open>charT()\<close>.
\<close>

definition string_size :: "nat \<Rightarrow> byte list \<Rightarrow> nat" where
  "string_size width s = length s div width"

definition resize :: "nat \<Rightarrow> byte list \<Rightarrow> nat \<Rightarrow> byte list" where
  "resize width s n = take (n * width) s @ replicate (n * width - length s) 0"

subsection \<open>toUTF8\<close>

text \<open>
  The variables of the loop: the world (the session's shift state is in it), the input left
  (\<^verbatim>\<open>inbuf\<close> and \<^verbatim>\<open>inbytesleft\<close>), \<^verbatim>\<open>outbuf\<close> and the buffer. One run of the body of
  the \<^verbatim>\<open>do\<close> loop gives the new variables and \<^verbatim>\<open>count\<close>.
\<close>

type_synonym 'st toUTF8_vars = "'st world \<times> byte list \<times> nat option \<times> UTF8Buffer"

definition toUTF8_body :: "iconv_t \<Rightarrow> 'st toUTF8_vars \<Rightarrow> 'st toUTF8_vars \<times> iconv_result" where
  "toUTF8_body cd v =
     (case v of (w, inbuf, outbuf, buf) \<Rightarrow>
        (let howMany = max (length inbuf) 4;
             (p, buf1) = getMoreBytes howMany outbuf buf;
             (w1, inbuf1, out, count) = iconv w cd inbuf howMany
         in ((w1, inbuf1, Some (p + length out),
              buf1\<lparr>storage := store_at (storage buf1) p out\<rparr>), count)))"

partial_function (option) toUTF8_loop ::
  "iconv_t \<Rightarrow> 'st toUTF8_vars \<Rightarrow> ('st toUTF8_vars \<times> iconv_result) option" where
  "toUTF8_loop cd v =
     (case toUTF8_body cd v of
        (v', count) \<Rightarrow> if count = Errno E2BIG then toUTF8_loop cd v' else Some (v', count))"

declare toUTF8_loop.simps [code]

text \<open>
  \<^verbatim>\<open>toUTF8\<close> in thread \<open>t\<close>. The source range is given by the bytes at
  \<^verbatim>\<open>sourceStart\<close>; \<^verbatim>\<open>sourceEnd - sourceStart\<close> is the number of whole characters in
  them. The result is \<open>None\<close> when the loop does not end; otherwise the exception or the
  returned cursor, with the world and the buffer as the call leaves them.
\<close>

definition toUTF8 ::
  "converter \<Rightarrow> 'st platform \<Rightarrow> nat \<Rightarrow> 'st world \<Rightarrow> byte list \<Rightarrow> UTF8Buffer \<Rightarrow>
   ((exn + nat option) \<times> 'st world \<times> UTF8Buffer) option" where
  "toUTF8 conv P t w source buf =
     (case getDescriptors conv P w t of
        (Inl e, w1) \<Rightarrow> Some (Inl e, w1, buf)
      | (Inr cdp, w1) \<Rightarrow>
          (let cd = snd cdp;
               w2 = iconv_reset w1 cd;
               inbytesleft = (length source div sizeof_charT conv) * sizeof_charT conv
           in case toUTF8_loop cd (w2, take inbytesleft source, None, buf) of
                None \<Rightarrow> None
              | Some ((w3, inbuf, outbuf, buf'), count) \<Rightarrow>
                  (case count of
                     Errno e \<Rightarrow>
                       Some (Inl (IllegalConversionException
                               (if e \<noteq> 0 then strerror P e else ''Unknown error'')), w3, buf')
                   | Count n \<Rightarrow> Some (Inr outbuf, w3, buf'))))"

subsection \<open>fromUTF8\<close>

text \<open>
  The variables of the loop: the world, the input left, \<^verbatim>\<open>outbuf\<close> (an offset into the
  target's data), \<^verbatim>\<open>outbytesleft\<close> and the target.
\<close>

type_synonym 'st fromUTF8_vars = "'st world \<times> byte list \<times> nat option \<times> nat \<times> byte list"

definition fromUTF8_body ::
  "nat \<Rightarrow> iconv_t \<Rightarrow> 'st fromUTF8_vars \<Rightarrow> 'st fromUTF8_vars \<times> iconv_result" where
  "fromUTF8_body width cd v =
     (case v of (w, inbuf, outbuf, outbytesleft, target) \<Rightarrow>
        (let bytesused = (case outbuf of None \<Rightarrow> 0 | Some p \<Rightarrow> p);
             increment = max (length inbuf) 4;
             target1 = resize width target (string_size width target + increment);
             outbuf1 = bytesused;
             outbytesleft1 = outbytesleft + increment * width;
             (w1, inbuf1, out, count) = iconv w cd inbuf outbytesleft1
         in ((w1, inbuf1, Some (outbuf1 + length out), outbytesleft1 - length out,
              store_at target1 outbuf1 out), count)))"

partial_function (option) fromUTF8_loop ::
  "nat \<Rightarrow> iconv_t \<Rightarrow> 'st fromUTF8_vars \<Rightarrow> ('st fromUTF8_vars \<times> iconv_result) option" where
  "fromUTF8_loop width cd v =
     (case fromUTF8_body width cd v of
        (v', count) \<Rightarrow>
          if count = Errno E2BIG then fromUTF8_loop width cd v' else Some (v', count))"

declare fromUTF8_loop.simps [code]

text \<open>
  \<^verbatim>\<open>fromUTF8\<close> in thread \<open>t\<close>: \<open>None\<close> when the loop does not end; otherwise whether an
  exception left the call, with the world and the target as the call leaves them.
\<close>

definition fromUTF8 ::
  "converter \<Rightarrow> 'st platform \<Rightarrow> nat \<Rightarrow> 'st world \<Rightarrow> byte list \<Rightarrow> byte list \<Rightarrow>
   ((exn + unit) \<times> 'st world \<times> byte list) option" where
  "fromUTF8 conv P t w source target =
     (case getDescriptors conv P w t of
        (Inl e, w1) \<Rightarrow> Some (Inl e, w1, target)
      | (Inr cdp, w1) \<Rightarrow>
          (let cd = fst cdp;
               w2 = iconv_reset w1 cd;
               width = sizeof_charT conv
           in case fromUTF8_loop width cd (w2, source, None, 0, target) of
                None \<Rightarrow> None
              | Some ((w3, inbuf, outbuf, outbytesleft, target'), count) \<Rightarrow>
                  (case count of
                     Errno e \<Rightarrow>
                       Some (Inl (IllegalConversionException
                               (if e \<noteq> 0 then strerror P e else ''Unknown error'')), w3, target')
                   | Count n \<Rightarrow>
                       Some (Inr (), w3,
                             resize width target'
                               (string_size width target' - outbytesleft div width)))))"

subsection \<open>What the engine converts a whole input to\<close>

text \<open>
  The conversion of a whole input by the engine's conversion calls when output room is never
  short: the bytes they give, or the \<^verbatim>\<open>errno\<close> value of the first character that cannot be
  converted. The flush call is not part of it. The two loops are compared with it.
\<close>

function convert_all :: "'st codec \<Rightarrow> 'st \<Rightarrow> byte list \<Rightarrow> int + byte list" where
  "convert_all c st inbuf =
     (if inbuf = [] then Inr []
      else case next_char c st inbuf of
        Failed e \<Rightarrow> Inl e
      | Converted n out st' \<Rightarrow>
          if n = 0 \<or> length inbuf < n then Inl EINVAL
          else (case convert_all c st' (drop n inbuf) of
                  Inl e \<Rightarrow> Inl e
                | Inr outs \<Rightarrow> Inr (out @ outs)))"
  by pat_completeness auto
termination
  by (relation "measure (\<lambda>(c, st, inbuf). length inbuf)") auto

declare convert_all.simps [simp del]

text \<open>
  The conversion of a whole input by the engine used as its interface asks: the conversion
  calls and, at the end of the input, the flush call. This is what the engine converts a
  string to.
\<close>

function convert_flush :: "'st codec \<Rightarrow> 'st \<Rightarrow> byte list \<Rightarrow> int + byte list" where
  "convert_flush c st inbuf =
     (if inbuf = [] then Inr (flush c st)
      else case next_char c st inbuf of
        Failed e \<Rightarrow> Inl e
      | Converted n out st' \<Rightarrow>
          if n = 0 \<or> length inbuf < n then Inl EINVAL
          else (case convert_flush c st' (drop n inbuf) of
                  Inl e \<Rightarrow> Inl e
                | Inr outs \<Rightarrow> Inr (out @ outs)))"
  by pat_completeness auto
termination
  by (relation "measure (\<lambda>(c, st, inbuf). length inbuf)") auto

declare convert_flush.simps [simp del]

subsection \<open>An example platform: ISO-8859-1\<close>

text \<open>
  A platform whose engine converts between ISO-8859-1 and UTF-8 and nothing else, for
  running the functions on concrete inputs. \<open>84\<close> is \<^verbatim>\<open>EILSEQ\<close>.
\<close>

unbundle bit_operations_syntax

definition latin1_to_utf8 :: "unit codec" where
  "latin1_to_utf8 =
     \<lparr>init_state = (),
      next_char = (\<lambda>st inbuf.
        case inbuf of
          [] \<Rightarrow> Failed EINVAL
        | b # bs \<Rightarrow>
            if b < 0x80 then Converted 1 [b] st
            else Converted 1 [0xC0 OR drop_bit 6 b, 0x80 OR (b AND 0x3F)] st),
      flush = (\<lambda>st. [])\<rparr>"

definition utf8_to_latin1 :: "unit codec" where
  "utf8_to_latin1 =
     \<lparr>init_state = (),
      next_char = (\<lambda>st inbuf.
        case inbuf of
          [] \<Rightarrow> Failed EINVAL
        | b # bs \<Rightarrow>
            if b < 0x80 then Converted 1 [b] st
            else if b = 0xC2 \<or> b = 0xC3 then
              (case bs of
                 [] \<Rightarrow> Failed EINVAL
               | b2 # bs' \<Rightarrow>
                   if b2 AND 0xC0 = 0x80
                   then Converted 2 [push_bit 6 (b AND 0x03) OR (b2 AND 0x3F)] st
                   else Failed 84)
            else Failed 84),
      flush = (\<lambda>st. [])\<rparr>"

definition latin1_platform :: "unit platform" where
  "latin1_platform =
     \<lparr>iconv_codec = (\<lambda>tocode fromcode.
        if tocode = ''ISO-8859-1'' \<and> fromcode = ''UTF-8'' then Some utf8_to_latin1
        else if tocode = ''UTF-8'' \<and> fromcode = ''ISO-8859-1'' then Some latin1_to_utf8
        else None),
      key_create_rs = 0,
      setspecific_rs = 0,
      strerror = (\<lambda>e.
        if e = 84 then ''Invalid or incomplete multibyte or wide character''
        else if e = 22 then ''Invalid argument''
        else if e = 9 then ''Bad file descriptor''
        else ''Unknown error '' @ (if e < 0 then ''-'' else []))\<rparr>"

definition latin1_converter :: converter where
  "latin1_converter = \<lparr>internalCode = ''ISO-8859-1'', sizeof_charT = 1\<rparr>"

definition empty_world :: "'st world" where
  "empty_world = \<lparr>sessions = [], tls = (\<lambda>t. None)\<rparr>"

definition empty_buffer :: UTF8Buffer where
  "empty_buffer = \<lparr>storage = [], requests = []\<rparr>"

definition oneway_platform :: "unit platform" where
  "oneway_platform =
     latin1_platform\<lparr>iconv_codec := (\<lambda>tocode fromcode.
        if tocode = ''ISO-8859-1'' \<and> fromcode = ''UTF-8'' then Some utf8_to_latin1 else None)\<rparr>"

text \<open>The world after thread 0 has got its sessions on the ISO-8859-1 platform.\<close>

definition latin1_world :: "unit world" where
  "latin1_world = \<lparr>sessions = [(1, utf8_to_latin1, ()), (2, latin1_to_utf8, ())],
                    tls = (\<lambda>t. if t = 0 then Some (1, 2) else None)\<rparr>"












subsection \<open>Predicates of the statements\<close>


text \<open>
  The destination of \<^verbatim>\<open>fromUTF8\<close> as the loop leaves it, before the \<^verbatim>\<open>resize\<close> in the last
  statement of the function.
\<close>

definition target_before_trim ::
  "converter \<Rightarrow> 'st platform \<Rightarrow> nat \<Rightarrow> 'st world \<Rightarrow> byte list \<Rightarrow> byte list \<Rightarrow> byte list option" where
  "target_before_trim conv P t w source target =
     (case getDescriptors conv P w t of
        (Inl e, w1) \<Rightarrow> None
      | (Inr cdp, w1) \<Rightarrow>
          (case fromUTF8_loop (sizeof_charT conv) (fst cdp)
                  (iconv_reset w1 (fst cdp), source, None, 0, target) of
             None \<Rightarrow> None
           | Some ((w3, inbuf, outbuf, outbytesleft, target'), count) \<Rightarrow> Some target'))"

text \<open>
  The pair \<^verbatim>\<open>createDescriptors\<close> returns, and the world it leaves, when the engine opens
  both directions.
\<close>

definition opened_pair :: "'st codec \<Rightarrow> 'st codec \<Rightarrow> 'st world \<Rightarrow> (iconv_t \<times> iconv_t) \<times> 'st world" where
  "opened_pair dec enc w =
     (let a = fresh_cd (sessions w);
          s1 = AList.update a (dec, init_state dec) (sessions w);
          b = fresh_cd s1
      in ((a, b), w\<lparr>sessions := AList.update b (enc, init_state enc) s1\<rparr>))"

text \<open>
  The slot of thread \<open>u\<close> is in order: it is empty, or both handles of its pair are valid
  (not \<^verbatim>\<open>iconv_t(-1)\<close>) and open.
\<close>

definition slot_inv :: "'st world \<Rightarrow> nat \<Rightarrow> bool" where
  "slot_inv w u =
     (case tls w u of
        None \<Rightarrow> True
      | Some cdp \<Rightarrow>
          fst cdp \<noteq> - 1 \<and> snd cdp \<noteq> - 1 \<and>
          fst cdp \<in> fst ` set (sessions w) \<and> snd cdp \<in> fst ` set (sessions w))"


text \<open>Bytes put in front of the result of a conversion that did not fail.\<close>

definition prepend :: "byte list \<Rightarrow> int + byte list \<Rightarrow> int + byte list" where
  "prepend out r = (case r of Inl e \<Rightarrow> Inl e | Inr outs \<Rightarrow> Inr (out @ outs))"

text \<open>The world with the shift state of session \<open>cd\<close> replaced.\<close>

definition with_state :: "'st world \<Rightarrow> iconv_t \<Rightarrow> 'st codec \<Rightarrow> 'st \<Rightarrow> 'st world" where
  "with_state w cd c st = w\<lparr>sessions := AList.update cd (c, st) (sessions w)\<rparr>"

text \<open>The offset a pointer stands for, the null pointer counting as the start.\<close>

definition cursor :: "nat option \<Rightarrow> nat" where
  "cursor outbuf = (case outbuf of None \<Rightarrow> 0 | Some p \<Rightarrow> p)"

text \<open>A memory block with \<open>outs\<close> stored at its start.\<close>

definition overlay :: "byte list \<Rightarrow> byte list \<Rightarrow> byte list" where
  "overlay outs mem = outs @ drop (length outs) mem"


text \<open>Thread \<open>t\<close> can get its sessions: its slot holds two different open handles, with the
  decoder \<open>dec\<close> (UTF-8 to internal) and the encoder \<open>enc\<close> (internal to UTF-8), or the slot is
  empty and the platform opens both directions and registers the pair.\<close>

definition sessions_ready ::
  "converter \<Rightarrow> 'st platform \<Rightarrow> 'st world \<Rightarrow> nat \<Rightarrow> 'st codec \<Rightarrow> 'st codec \<Rightarrow> bool" where
  "sessions_ready conv P w t dec enc =
     (case tls w t of
        None \<Rightarrow>
          iconv_codec P (internalCode conv) ''UTF-8'' = Some dec \<and>
          iconv_codec P ''UTF-8'' (internalCode conv) = Some enc \<and>
          setspecific_rs P = 0
      | Some cdp \<Rightarrow>
          fst cdp \<noteq> snd cdp \<and>
          map_option fst (map_of (sessions w) (fst cdp)) = Some dec \<and>
          map_option fst (map_of (sessions w) (snd cdp)) = Some enc)"



section \<open>The session pool\<close>

subsection \<open>Opening and closing sessions\<close>

lemma fresh_cd_gt: "k \<in> fst ` set ss \<Longrightarrow> k < fresh_cd ss"
  by (induction ss rule: fresh_cd.induct) force+

lemma fresh_cd_notin: "fresh_cd ss \<notin> fst ` set ss"
  using fresh_cd_gt by blast

lemma fresh_cd_pos: "0 < fresh_cd ss"
  by (induction ss rule: fresh_cd.induct) auto

lemma fresh_cd_valid: "fresh_cd ss \<noteq> - 1"
  using fresh_cd_pos [of ss] by simp

lemma iconv_open_unsupported:
  "iconv_codec P tocode fromcode = None \<Longrightarrow> iconv_open P w tocode fromcode = (- 1, w)"
  by (simp add: iconv_open_def)

lemma iconv_open_supported:
  "iconv_codec P tocode fromcode = Some c \<Longrightarrow>
   iconv_open P w tocode fromcode =
     (fresh_cd (sessions w),
      w\<lparr>sessions := AList.update (fresh_cd (sessions w)) (c, init_state c) (sessions w)\<rparr>)"
  by (simp add: iconv_open_def Let_def)

lemma iconv_close_fresh:
  "iconv_close (w\<lparr>sessions := AList.update (fresh_cd (sessions w)) v (sessions w)\<rparr>)
     (fresh_cd (sessions w)) = (0, w)"
  by (simp add: iconv_close_def AList.dom_update AList.delete_update_same fresh_cd_notin)

lemma createDescriptors_first_fails:
  "iconv_codec P (internalCode conv) ''UTF-8'' = None \<Longrightarrow>
   createDescriptors conv P w =
     (Inl (IllegalConversionException (''iconv cannot convert from UTF-8 to '' @ internalCode conv)), w)"
  by (simp add: createDescriptors_def iconv_open_unsupported)

lemma createDescriptors_second_fails:
  "iconv_codec P (internalCode conv) ''UTF-8'' = Some c \<Longrightarrow>
   iconv_codec P ''UTF-8'' (internalCode conv) = None \<Longrightarrow>
   createDescriptors conv P w =
     (Inl (IllegalConversionException
        (''iconv cannot convert from '' @ internalCode conv @ '' to UTF-8'')), w)"
  by (simp add: createDescriptors_def iconv_open_unsupported iconv_open_supported
      fresh_cd_valid iconv_close_fresh)

lemma createDescriptors_succeeds:
  "iconv_codec P (internalCode conv) ''UTF-8'' = Some dec \<Longrightarrow>
   iconv_codec P ''UTF-8'' (internalCode conv) = Some enc \<Longrightarrow>
   createDescriptors conv P w = (Inr (fst (opened_pair dec enc w)), snd (opened_pair dec enc w))"
  by (simp add: createDescriptors_def iconv_open_supported fresh_cd_valid opened_pair_def Let_def)

lemma opened_pair_fresh:
  "fst (fst (opened_pair dec enc w)) \<notin> fst ` set (sessions w)"
  "snd (fst (opened_pair dec enc w)) \<notin> fst ` set (sessions w)"
  "fst (fst (opened_pair dec enc w)) \<noteq> snd (fst (opened_pair dec enc w))"
proof -
  define a where "a = fresh_cd (sessions w)"
  define s1 where "s1 = AList.update a (dec, init_state dec) (sessions w)"
  define b where "b = fresh_cd s1"
  have p: "fst (opened_pair dec enc w) = (a, b)"
    by (simp add: opened_pair_def Let_def a_def s1_def b_def)
  have a: "a \<notin> fst ` set (sessions w)"
    unfolding a_def by (rule fresh_cd_notin)
  have "b \<notin> fst ` set s1"
    unfolding b_def by (rule fresh_cd_notin)
  then have b: "b \<noteq> a \<and> b \<notin> fst ` set (sessions w)"
    by (simp add: s1_def AList.dom_update)
  show "fst (fst (opened_pair dec enc w)) \<notin> fst ` set (sessions w)"
    "snd (fst (opened_pair dec enc w)) \<notin> fst ` set (sessions w)"
    "fst (fst (opened_pair dec enc w)) \<noteq> snd (fst (opened_pair dec enc w))"
    using a b by (simp_all add: p)
qed

lemma opened_pair_valid:
  "fst (fst (opened_pair dec enc w)) \<noteq> - 1"
  "snd (fst (opened_pair dec enc w)) \<noteq> - 1"
  by (simp_all add: opened_pair_def Let_def fresh_cd_valid)

lemma opened_pair_sessions:
  "fst ` set (sessions (snd (opened_pair dec enc w))) =
     {fst (fst (opened_pair dec enc w)), snd (fst (opened_pair dec enc w))} \<union> fst ` set (sessions w)"
  by (auto simp: opened_pair_def Let_def AList.dom_update)

lemma opened_pair_tls: "tls (snd (opened_pair dec enc w)) = tls w"
  by (simp add: opened_pair_def Let_def)

lemma opened_pair_map_of_fst:
  "map_of (sessions (snd (opened_pair dec enc w))) (fst (fst (opened_pair dec enc w))) =
     Some (dec, init_state dec)"
  using opened_pair_fresh(3) [of dec enc w]
  by (simp add: opened_pair_def Let_def AList.update_conv')

lemma opened_pair_map_of_snd:
  "map_of (sessions (snd (opened_pair dec enc w))) (snd (fst (opened_pair dec enc w))) =
     Some (enc, init_state enc)"
  by (simp add: opened_pair_def Let_def AList.update_conv')

lemma opened_pair_map_of_old:
  "k \<in> fst ` set (sessions w) \<Longrightarrow>
   map_of (sessions (snd (opened_pair dec enc w))) k = map_of (sessions w) k"
proof -
  assume "k \<in> fst ` set (sessions w)"
  then have "k \<noteq> fst (fst (opened_pair dec enc w))" "k \<noteq> snd (fst (opened_pair dec enc w))"
    using opened_pair_fresh(1,2) [of dec enc w] by blast+
  then show ?thesis
    by (simp add: opened_pair_def Let_def AList.update_conv')
qed

lemma createDescriptors_cases:
  obtains (fails) m where "createDescriptors conv P w = (Inl (IllegalConversionException m), w)"
  | (opens) dec enc where "iconv_codec P (internalCode conv) ''UTF-8'' = Some dec"
      "iconv_codec P ''UTF-8'' (internalCode conv) = Some enc"
      "createDescriptors conv P w = (Inr (fst (opened_pair dec enc w)), snd (opened_pair dec enc w))"
proof (cases "iconv_codec P (internalCode conv) ''UTF-8''")
  case None
  then show ?thesis using fails createDescriptors_first_fails by blast
next
  case (Some dec)
  show ?thesis
  proof (cases "iconv_codec P ''UTF-8'' (internalCode conv)")
    case None
    with Some show ?thesis using fails createDescriptors_second_fails by blast
  next
    case (Some enc)
    with \<open>iconv_codec P (internalCode conv) ''UTF-8'' = Some dec\<close> show ?thesis
      using opens createDescriptors_succeeds by blast
  qed
qed

lemma getDescriptors_registered:
  "tls w t = Some cdp \<Longrightarrow> getDescriptors conv P w t = (Inr cdp, w)"
  by (simp add: getDescriptors_def)

lemma slot_inv_kept:
  "slot_inv w u \<Longrightarrow> tls w' u = tls w u \<Longrightarrow>
   fst ` set (sessions w) \<subseteq> fst ` set (sessions w') \<Longrightarrow> slot_inv w' u"
  unfolding slot_inv_def by (cases "tls w u") auto

lemma getDescriptors_slot_inv:
  assumes "\<forall>u. slot_inv w u"
  shows "slot_inv (snd (getDescriptors conv P w t)) u"
proof (cases "tls w t")
  case (Some cdp)
  with assms show ?thesis by (simp add: getDescriptors_def)
next
  case None
  show ?thesis
  proof (cases conv P w rule: createDescriptors_cases)
    case (fails m)
    with None assms show ?thesis by (simp add: getDescriptors_def)
  next
    case (opens dec enc)
    let ?p = "opened_pair dec enc w"
    have old: "slot_inv w u" using assms by simp
    have sub: "fst ` set (sessions w) \<subseteq> fst ` set (sessions (snd ?p))"
      by (auto simp: opened_pair_sessions)
    show ?thesis
    proof (cases "setspecific_rs P \<noteq> 0 \<or> u \<noteq> t")
      case True
      have "slot_inv (snd (getDescriptors conv P w t)) u"
      proof (rule slot_inv_kept [OF old])
        show "tls (snd (getDescriptors conv P w t)) u = tls w u"
          using True None opens(3) by (auto simp: getDescriptors_def Let_def opened_pair_tls)
        show "fst ` set (sessions w) \<subseteq> fst ` set (sessions (snd (getDescriptors conv P w t)))"
          using sub None opens(3) by (simp add: getDescriptors_def Let_def)
      qed
      then show ?thesis .
    next
      case False
      then have g: "getDescriptors conv P w t = (Inr (fst ?p), (snd ?p)\<lparr>tls := (tls (snd ?p))(t \<mapsto> fst ?p)\<rparr>)"
        using None opens(3) by (simp add: getDescriptors_def Let_def)
      from False have "u = t" by simp
      then show ?thesis
        using opened_pair_valid [of dec enc w]
        by (simp add: g slot_inv_def opened_pair_sessions)
    qed
  qed
qed

lemma getDescriptors_other_threads:
  "u \<noteq> t \<Longrightarrow> tls (snd (getDescriptors conv P w t)) u = tls w u"
  by (cases conv P w rule: createDescriptors_cases)
     (auto simp: getDescriptors_def Let_def opened_pair_tls split: option.splits)

lemma getDescriptors_returns_registered:
  "getDescriptors conv P w t = (Inr cdp, w') \<Longrightarrow> tls w' t = Some cdp"
  by (cases conv P w rule: createDescriptors_cases)
     (auto simp: getDescriptors_def Let_def opened_pair_tls split: option.splits if_splits)

lemma getDescriptors_opens_only_when_absent:
  "tls w t \<noteq> None \<Longrightarrow> sessions (snd (getDescriptors conv P w t)) = sessions w"
  by (auto simp: getDescriptors_def)

lemma constructed_slots_empty:
  assumes "IconvStringConverter P w code width = (Inr conv, w')"
  shows "tls w' u = None"
proof (cases "\<lparr>internalCode = code, sizeof_charT = width\<rparr>" P w rule: createDescriptors_cases)
  case (fails m)
  with assms show ?thesis by (simp add: IconvStringConverter_def)
next
  case (opens dec enc)
  with assms show ?thesis
    by (auto simp: IconvStringConverter_def Let_def split: if_splits)
qed

subsection \<open>Construction with an unsupported encoding\<close>

text \<open>
  C3. When the engine cannot open one of the two directions for the encoding, the
  constructor fails with \<^verbatim>\<open>IconvInitializationException\<close> (the spec's EncodingUnsupported),
  whose reason is the message \<^verbatim>\<open>createDescriptors\<close> builds for the direction that did not
  open, and the world at exit is the world at entry: no session the call opened is left
  open. In particular the session of the first direction, when it opened, has been closed.
\<close>

theorem unsupported_encoding_construction_fails:
  assumes "iconv_codec P code ''UTF-8'' = None \<or> iconv_codec P ''UTF-8'' code = None"
  shows "IconvStringConverter P w code width =
           (Inl (IconvInitializationException
              (if iconv_codec P code ''UTF-8'' = None
               then ''iconv cannot convert from UTF-8 to '' @ code
               else ''iconv cannot convert from '' @ code @ '' to UTF-8'')), w)"
proof (cases "iconv_codec P code ''UTF-8''")
  case None
  then show ?thesis
    by (simp add: IconvStringConverter_def createDescriptors_first_fails)
next
  case (Some c)
  with assms have "iconv_codec P ''UTF-8'' code = None" by simp
  with Some show ?thesis
    by (simp add: IconvStringConverter_def createDescriptors_second_fails)
qed

theorem unsupported_encoding_construction_fails_witness:
  "iconv_codec oneway_platform ''ISO-8859-1'' ''UTF-8'' = Some utf8_to_latin1 \<and>
   iconv_codec oneway_platform ''UTF-8'' ''ISO-8859-1'' = None \<and>
   IconvStringConverter oneway_platform empty_world ''ISO-8859-1'' 1 =
     (Inl (IconvInitializationException ''iconv cannot convert from ISO-8859-1 to UTF-8''),
      empty_world)"
  using unsupported_encoding_construction_fails
    [of oneway_platform "''ISO-8859-1''" empty_world 1]
  by (simp add: oneway_platform_def)

subsection \<open>The per-thread slot\<close>

text \<open>
  C4. If every thread's slot is in order (empty, or a pair of two valid open handles), then
  after \<^verbatim>\<open>getDescriptors\<close> in thread \<open>t\<close> every slot still is; a pair registered for \<open>t\<close>
  is returned as it is and the world is unchanged; a pair the call returns is registered for
  \<open>t\<close> and the next call returns it again; the slots of the other threads are untouched;
  and sessions are opened only when the slot of \<open>t\<close> was empty. Every slot is in order when
  the constructor has returned the converter (they are all empty then).
\<close>

theorem slot_pair_invariant_and_reuse:
  assumes "\<forall>u. slot_inv w u"
  shows "(\<forall>u. slot_inv (snd (getDescriptors conv P w t)) u) \<and>
         (\<forall>cdp. tls w t = Some cdp \<longrightarrow> getDescriptors conv P w t = (Inr cdp, w)) \<and>
         (\<forall>cdp w'. getDescriptors conv P w t = (Inr cdp, w') \<longrightarrow>
            tls w' t = Some cdp \<and> getDescriptors conv P w' t = (Inr cdp, w')) \<and>
         (\<forall>u. u \<noteq> t \<longrightarrow> tls (snd (getDescriptors conv P w t)) u = tls w u) \<and>
         (sessions (snd (getDescriptors conv P w t)) \<noteq> sessions w \<longrightarrow> tls w t = None) \<and>
         (\<forall>w0 code width w1 u. IconvStringConverter P w0 code width = (Inr conv, w1) \<longrightarrow>
            slot_inv w1 u)"
proof (intro conjI allI impI)
  fix u show "slot_inv (snd (getDescriptors conv P w t)) u"
    using assms by (rule getDescriptors_slot_inv)
next
  fix cdp assume "tls w t = Some cdp"
  then show "getDescriptors conv P w t = (Inr cdp, w)" by (rule getDescriptors_registered)
next
  fix cdp w' assume g: "getDescriptors conv P w t = (Inr cdp, w')"
  then show "tls w' t = Some cdp" by (rule getDescriptors_returns_registered)
  then show "getDescriptors conv P w' t = (Inr cdp, w')" by (rule getDescriptors_registered)
next
  fix u assume "u \<noteq> t"
  then show "tls (snd (getDescriptors conv P w t)) u = tls w u"
    by (rule getDescriptors_other_threads)
next
  assume "sessions (snd (getDescriptors conv P w t)) \<noteq> sessions w"
  then show "tls w t = None"
    using getDescriptors_opens_only_when_absent [of w t conv P] by blast
next
  fix w0 code width w1 u
  assume "IconvStringConverter P w0 code width = (Inr conv, w1)"
  then have "tls w1 u = None" by (rule constructed_slots_empty)
  then show "slot_inv w1 u" by (simp add: slot_inv_def)
qed

theorem slot_pair_invariant_and_reuse_witness:
  "(\<forall>u. slot_inv empty_world u) \<and>
   (\<forall>u. slot_inv (snd (getDescriptors latin1_converter latin1_platform empty_world 0)) u) \<and>
   fst (getDescriptors latin1_converter latin1_platform empty_world 0) = Inr (1, 2) \<and>
   tls (snd (getDescriptors latin1_converter latin1_platform empty_world 0)) 0 = Some (1, 2) \<and>
   getDescriptors latin1_converter latin1_platform
     (snd (getDescriptors latin1_converter latin1_platform empty_world 0)) 0 =
     (Inr (1, 2), snd (getDescriptors latin1_converter latin1_platform empty_world 0))"
proof -
  have inv: "\<forall>u. slot_inv empty_world u"
    by (simp add: slot_inv_def empty_world_def)
  have g: "fst (getDescriptors latin1_converter latin1_platform empty_world 0) = Inr (1, 2)"
    by (simp add: getDescriptors_def createDescriptors_def iconv_open_def Let_def
        latin1_converter_def latin1_platform_def empty_world_def)
  then have "getDescriptors latin1_converter latin1_platform empty_world 0 =
      (Inr (1, 2), snd (getDescriptors latin1_converter latin1_platform empty_world 0))"
    by (metis prod.collapse)
  with inv g show ?thesis
    using slot_pair_invariant_and_reuse [OF inv, of latin1_converter latin1_platform 0]
    by blast
qed

subsection \<open>A failed registration\<close>

text \<open>
  C10. When thread \<open>t\<close> has no pair registered, the engine opens both directions and
  \<^verbatim>\<open>pthread_setspecific\<close> fails, \<^verbatim>\<open>getDescriptors\<close> throws
  \<^verbatim>\<open>ThreadSyscallException\<close> (the spec's SessionCreationFailed) and the two sessions it
  has just opened stay open: the world at exit has two handles more than at entry, one per
  direction, and the slot is still empty.
\<close>

theorem setspecific_failure_leaves_sessions_open:
  assumes "tls w t = None"
    and "iconv_codec P (internalCode conv) ''UTF-8'' = Some dec"
    and "iconv_codec P ''UTF-8'' (internalCode conv) = Some enc"
    and "setspecific_rs P \<noteq> 0"
  shows "\<exists>a b w'. getDescriptors conv P w t = (Inl (ThreadSyscallException (setspecific_rs P)), w') \<and>
           a \<noteq> b \<and> a \<notin> fst ` set (sessions w) \<and> b \<notin> fst ` set (sessions w) \<and>
           map_of (sessions w') a = Some (dec, init_state dec) \<and>
           map_of (sessions w') b = Some (enc, init_state enc) \<and>
           fst ` set (sessions w') = {a, b} \<union> fst ` set (sessions w) \<and>
           tls w' = tls w"
proof -
  let ?p = "opened_pair dec enc w"
  have "getDescriptors conv P w t = (Inl (ThreadSyscallException (setspecific_rs P)), snd ?p)"
    using assms by (simp add: getDescriptors_def createDescriptors_succeeds)
  then show ?thesis
    using opened_pair_fresh [of dec enc w] opened_pair_map_of_fst [of dec enc w]
      opened_pair_map_of_snd [of dec enc w]
      opened_pair_sessions [of dec enc w] opened_pair_tls [of dec enc w]
    by blast
qed

theorem setspecific_failure_leaves_sessions_open_witness:
  "\<exists>a b w'. getDescriptors latin1_converter (latin1_platform\<lparr>setspecific_rs := 12\<rparr>)
               empty_world 0 = (Inl (ThreadSyscallException 12), w') \<and>
     a \<noteq> b \<and> a \<notin> fst ` set (sessions empty_world) \<and> b \<notin> fst ` set (sessions empty_world) \<and>
     map_of (sessions w') a = Some (utf8_to_latin1, init_state utf8_to_latin1) \<and>
     map_of (sessions w') b = Some (latin1_to_utf8, init_state latin1_to_utf8) \<and>
     fst ` set (sessions w') = {a, b} \<union> fst ` set (sessions empty_world) \<and>
     tls w' = tls empty_world"
  using setspecific_failure_leaves_sessions_open
    [of empty_world 0 "latin1_platform\<lparr>setspecific_rs := 12\<rparr>" latin1_converter
        utf8_to_latin1 latin1_to_utf8]
  by (simp add: latin1_platform_def latin1_converter_def empty_world_def)

section \<open>The conversions\<close>

subsection \<open>The engine\<close>

lemma prepend_simps [simp]:
  "prepend out (Inl e) = Inl e"
  "prepend out (Inr outs) = Inr (out @ outs)"
  "prepend [] r = r"
  by (simp_all add: prepend_def split: sum.splits)

lemma prepend_prepend: "prepend a (prepend b r) = prepend (a @ b) r"
  by (simp add: prepend_def split: sum.splits)

lemma prepend_eq_Inl [simp]: "prepend out r = Inl e \<longleftrightarrow> r = Inl e"
  by (simp add: prepend_def split: sum.splits)

lemma E2BIG_neq_EINVAL [simp]: "EINVAL \<noteq> E2BIG" "E2BIG \<noteq> EINVAL"
  by (simp_all add: E2BIG_def EINVAL_def)

lemma E2BIG_neq_EBADF [simp]: "EBADF \<noteq> E2BIG" "E2BIG \<noteq> EBADF"
  by (simp_all add: E2BIG_def EBADF_def)

lemma convert_all_Nil [simp]: "convert_all c st [] = Inr []"
  by (simp add: convert_all.simps [of c st "[]"])

text \<open>
  When no shift state of a codec holds output, the flush call writes nothing: the conversion
  calls alone give what the engine converts the input to.
\<close>

lemma convert_flush_without_held_output:
  assumes "\<And>st. flush c st = []"
  shows "convert_flush c st inbuf = convert_all c st inbuf"
proof (induction "length inbuf" arbitrary: st inbuf rule: less_induct)
  case less
  show ?case
  proof (cases "inbuf = []")
    case True
    then show ?thesis
      using assms by (simp add: convert_flush.simps [of c st "[]"])
  next
    case False
    show ?thesis
    proof (cases "next_char c st inbuf")
      case (Failed e)
      with False show ?thesis
        by (simp add: convert_flush.simps [of c st inbuf] convert_all.simps [of c st inbuf])
    next
      case (Converted n out st')
      show ?thesis
      proof (cases "n = 0 \<or> length inbuf < n")
        case True
        with False Converted show ?thesis
          by (auto simp add: convert_flush.simps [of c st inbuf] convert_all.simps [of c st inbuf])
      next
        case valid: False
        then have "length (drop n inbuf) < length inbuf" using False by simp
        then have "convert_flush c st' (drop n inbuf) = convert_all c st' (drop n inbuf)"
          by (rule less.hyps)
        with False Converted valid show ?thesis
          by (simp add: convert_flush.simps [of c st inbuf] convert_all.simps [of c st inbuf])
      qed
    qed
  qed
qed

lemma iconv_chars_Nil [simp]: "iconv_chars c st [] n = (st, [], [], Count 0)"
  by (simp add: iconv_chars.simps [of c st "[]"])

lemma iconv_chars_failed:
  "inbuf \<noteq> [] \<Longrightarrow> next_char c st inbuf = Failed e \<Longrightarrow>
   iconv_chars c st inbuf avail = (st, inbuf, [], Errno e)"
  by (simp add: iconv_chars.simps [of c st inbuf])

lemma iconv_chars_incomplete:
  "inbuf \<noteq> [] \<Longrightarrow> next_char c st inbuf = Converted n o1 s1 \<Longrightarrow> n = 0 \<or> length inbuf < n \<Longrightarrow>
   iconv_chars c st inbuf avail = (st, inbuf, [], Errno EINVAL)"
  by (simp add: iconv_chars.simps [of c st inbuf])

lemma iconv_chars_shortfall:
  "inbuf \<noteq> [] \<Longrightarrow> next_char c st inbuf = Converted n o1 s1 \<Longrightarrow> 0 < n \<Longrightarrow> n \<le> length inbuf \<Longrightarrow>
   avail < length o1 \<Longrightarrow>
   iconv_chars c st inbuf avail = (st, inbuf, [], Errno E2BIG)"
  by (simp add: iconv_chars.simps [of c st inbuf])

lemma iconv_chars_step:
  "inbuf \<noteq> [] \<Longrightarrow> next_char c st inbuf = Converted n o1 s1 \<Longrightarrow> 0 < n \<Longrightarrow> n \<le> length inbuf \<Longrightarrow>
   length o1 \<le> avail \<Longrightarrow>
   iconv_chars c st inbuf avail =
     (case iconv_chars c s1 (drop n inbuf) (avail - length o1) of
        (st'', rest, outs, r) \<Rightarrow> (st'', rest, o1 @ outs, r))"
  by (simp add: iconv_chars.simps [of c st inbuf])

lemma iconv_chars_cases [consumes 1, case_names empty failed incomplete shortfall step]:
  assumes "iconv_chars c st inbuf avail = (st', rest, out, r)"
  obtains
    "inbuf = []" "st' = st" "rest = []" "out = []" "r = Count 0"
  | e where "inbuf \<noteq> []" "next_char c st inbuf = Failed e"
      "st' = st" "rest = inbuf" "out = []" "r = Errno e"
  | n o1 s1 where "inbuf \<noteq> []" "next_char c st inbuf = Converted n o1 s1"
      "n = 0 \<or> length inbuf < n" "st' = st" "rest = inbuf" "out = []" "r = Errno EINVAL"
  | n o1 s1 where "inbuf \<noteq> []" "next_char c st inbuf = Converted n o1 s1"
      "0 < n" "n \<le> length inbuf" "avail < length o1"
      "st' = st" "rest = inbuf" "out = []" "r = Errno E2BIG"
  | n o1 s1 out2 where "inbuf \<noteq> []" "next_char c st inbuf = Converted n o1 s1"
      "0 < n" "n \<le> length inbuf" "length o1 \<le> avail"
      "iconv_chars c s1 (drop n inbuf) (avail - length o1) = (st', rest, out2, r)"
      "out = o1 @ out2"
proof (cases "inbuf = []")
  case True
  then have "st' = st \<and> rest = [] \<and> out = [] \<and> r = Count 0"
    using assms by auto
  with True that(1) show ?thesis by blast
next
  case False
  show ?thesis
  proof (cases "next_char c st inbuf")
    case (Failed e)
    have "st' = st \<and> rest = inbuf \<and> out = [] \<and> r = Errno e"
      using assms iconv_chars_failed [OF False Failed, of avail] by auto
    with False Failed that(2) show ?thesis by blast
  next
    case (Converted n o1 s1)
    show ?thesis
    proof (cases "n = 0 \<or> length inbuf < n")
      case True
      have "st' = st \<and> rest = inbuf \<and> out = [] \<and> r = Errno EINVAL"
        using assms iconv_chars_incomplete [OF False Converted True, of avail] by auto
      with False Converted True that(3) show ?thesis by blast
    next
      case valid: False
      then have n: "0 < n" "n \<le> length inbuf" by simp_all
      show ?thesis
      proof (cases "avail < length o1")
        case True
        have "st' = st \<and> rest = inbuf \<and> out = [] \<and> r = Errno E2BIG"
          using assms iconv_chars_shortfall [OF False Converted n True] by auto
        with False Converted n True that(4) show ?thesis by blast
      next
        case fits: False
        then have fits': "length o1 \<le> avail" by simp
        obtain s2 rest2 out2 r2 where
          rec: "iconv_chars c s1 (drop n inbuf) (avail - length o1) = (s2, rest2, out2, r2)"
          by (metis prod_cases4)
        have "st' = s2 \<and> rest = rest2 \<and> out = o1 @ out2 \<and> r = r2"
          using assms iconv_chars_step [OF False Converted n fits'] rec by auto
        with False Converted n fits' rec that(5) [of n o1 s1 out2] show ?thesis
          by blast
      qed
    qed
  qed
qed

lemma convert_all_step:
  "inbuf \<noteq> [] \<Longrightarrow> next_char c st inbuf = Converted n o1 s1 \<Longrightarrow> 0 < n \<Longrightarrow> n \<le> length inbuf \<Longrightarrow>
   convert_all c st inbuf = prepend o1 (convert_all c s1 (drop n inbuf))"
  by (simp add: convert_all.simps [of c st inbuf] prepend_def)

lemma convert_all_failed:
  "inbuf \<noteq> [] \<Longrightarrow> next_char c st inbuf = Failed e \<Longrightarrow> convert_all c st inbuf = Inl e"
  by (simp add: convert_all.simps [of c st inbuf])

lemma convert_all_incomplete:
  "inbuf \<noteq> [] \<Longrightarrow> next_char c st inbuf = Converted n o1 s1 \<Longrightarrow> n = 0 \<or> length inbuf < n \<Longrightarrow>
   convert_all c st inbuf = Inl EINVAL"
  by (auto simp add: convert_all.simps [of c st inbuf])

lemma iconv_chars_props:
  "iconv_chars c st inbuf avail = (st', rest, out, r) \<Longrightarrow>
     length out \<le> avail \<and> length rest \<le> length inbuf \<and>
     convert_all c st inbuf = prepend out (convert_all c st' rest) \<and>
     (\<forall>k. r = Count k \<longrightarrow> rest = [] \<and> k = 0) \<and>
     (\<forall>e. r = Errno e \<longrightarrow> e \<noteq> E2BIG \<longrightarrow> convert_all c st' rest = Inl e) \<and>
     (r = Errno E2BIG \<longrightarrow> convert_all c st' rest \<noteq> Inl E2BIG \<longrightarrow>
        (\<exists>n o1 s1. next_char c st' rest = Converted n o1 s1 \<and> avail - length out < length o1)) \<and>
     (length rest = length inbuf \<longrightarrow> rest = inbuf \<and> st' = st \<and> out = [])"
proof (induction "length inbuf" arbitrary: st inbuf avail out rule: less_induct)
  case less
  from less.prems show ?case
  proof (cases rule: iconv_chars_cases)
    case empty
    then show ?thesis by simp
  next
    case (failed e)
    then show ?thesis by (simp add: convert_all_failed)
  next
    case (incomplete n o1 s1)
    then show ?thesis by (simp add: convert_all_incomplete)
  next
    case (shortfall n o1 s1)
    then show ?thesis by simp
  next
    case (step n o1 s1 out2)
    have shorter: "length (drop n inbuf) < length inbuf"
      using step(1,3) by simp
    note IH = less.hyps [OF shorter step(6)]
    have "convert_all c st inbuf = prepend out (convert_all c st' rest)"
      using IH step by (simp add: convert_all_step prepend_prepend)
    moreover have "length rest < length inbuf"
      using IH shorter by simp
    moreover have "avail - length o1 - length out2 = avail - length out"
      using step by simp
    ultimately show ?thesis
      using IH step(5,7) by auto
  qed
qed

subsection \<open>A call of the engine on an open session\<close>

lemma with_state_simps [simp]:
  "map_of (sessions (with_state w cd c st)) cd = Some (c, st)"
  "with_state (with_state w cd c st) cd c st' = with_state w cd c st'"
  "tls (with_state w cd c st) = tls w"
  "k \<noteq> cd \<Longrightarrow> map_of (sessions (with_state w cd c st)) k = map_of (sessions w) k"
  by (simp_all add: with_state_def AList.update_conv')

lemma iconv_on_session:
  "map_of (sessions w) cd = Some (c, st) \<Longrightarrow>
   iconv_chars c st inbuf avail = (st', rest, out, r) \<Longrightarrow>
   iconv w cd inbuf avail = (with_state w cd c st', rest, out, r)"
  by (simp add: iconv_def with_state_def)

lemma iconv_reset_on_session:
  "map_of (sessions w) cd = Some (c, st) \<Longrightarrow> iconv_reset w cd = with_state w cd c (init_state c)"
  by (simp add: iconv_reset_def with_state_def)

subsection \<open>The loop of toUTF8\<close>

text \<open>
  From variables whose session is open, the loop returns, and its result is the one-shot
  conversion of the input left: the bytes follow what was before the cursor, or the engine's
  error is the result. Each run that ends with \<open>E2BIG\<close> has converted a character, because four
  bytes are room for any.
\<close>

lemma cursor_simps [simp]: "cursor None = 0" "cursor (Some p) = p"
  by (simp_all add: cursor_def)

lemma toUTF8_body_on_session:
  assumes "map_of (sessions w) cd = Some (c, st)"
    and "iconv_chars c st inbuf (max (length inbuf) 4) = (st', rest, out, r)"
  shows "toUTF8_body cd (w, inbuf, outbuf, buf) =
           ((with_state w cd c st', rest, Some (cursor outbuf + length out),
             \<lparr>storage = store_at (take (cursor outbuf) (storage buf) @ replicate (max (length inbuf) 4) 0)
                          (cursor outbuf) out,
              requests = requests buf @ [(max (length inbuf) 4, outbuf)]\<rparr>), r)"
  using assms
  by (simp add: toUTF8_body_def getMoreBytes_def Let_def iconv_on_session cursor_def)




subsection \<open>A character that never fits the window of toUTF8\<close>



subsection \<open>The loop of fromUTF8\<close>

text \<open>
  The target is the target on entry, grown by zero characters, with what has been decoded
  stored from its start. A run that ends with \<open>E2BIG\<close> has converted a character or has made
  \<^verbatim>\<open>outbytesleft\<close> larger, so the loop returns.
\<close>

lemma overlay_Nil [simp]: "overlay [] mem = mem"
  by (simp add: overlay_def)





lemma fromUTF8_body_on_session:
  assumes "map_of (sessions w) cd = Some (c, st)"
    and "iconv_chars c st inbuf (outbytesleft + max (length inbuf) 4 * width) = (st', rest, out, r)"
  shows "fromUTF8_body width cd (w, inbuf, outbuf, outbytesleft, target) =
           ((with_state w cd c st', rest, Some (cursor outbuf + length out),
             outbytesleft + max (length inbuf) 4 * width - length out,
             store_at (resize width target (string_size width target + max (length inbuf) 4))
               (cursor outbuf) out), r)"
  using assms
  by (simp add: fromUTF8_body_def Let_def iconv_on_session cursor_def)


subsection \<open>The two calls\<close>

lemma getDescriptors_ready:
  assumes "sessions_ready conv P w t dec enc"
  obtains cdp w1 sd se where
    "getDescriptors conv P w t = (Inr cdp, w1)"
    "fst cdp \<noteq> snd cdp"
    "map_of (sessions w1) (fst cdp) = Some (dec, sd)"
    "map_of (sessions w1) (snd cdp) = Some (enc, se)"
    "tls w1 t = Some cdp"
proof (cases "tls w t")
  case None
  with assms have sup: "iconv_codec P (internalCode conv) ''UTF-8'' = Some dec"
    "iconv_codec P ''UTF-8'' (internalCode conv) = Some enc" "setspecific_rs P = 0"
    by (simp_all add: sessions_ready_def)
  let ?p = "opened_pair dec enc w"
  let ?w1 = "(snd ?p)\<lparr>tls := (tls (snd ?p))(t \<mapsto> fst ?p)\<rparr>"
  have "getDescriptors conv P w t = (Inr (fst ?p), ?w1)"
    using None sup by (simp add: getDescriptors_def createDescriptors_succeeds)
  moreover have "fst (fst ?p) \<noteq> snd (fst ?p)" by (rule opened_pair_fresh(3))
  moreover have "map_of (sessions ?w1) (fst (fst ?p)) = Some (dec, init_state dec)"
    by (simp add: opened_pair_map_of_fst)
  moreover have "map_of (sessions ?w1) (snd (fst ?p)) = Some (enc, init_state enc)"
    by (simp add: opened_pair_map_of_snd)
  moreover have "tls ?w1 t = Some (fst ?p)" by simp
  ultimately show ?thesis using that by blast
next
  case (Some cdp)
  with assms have r: "fst cdp \<noteq> snd cdp"
    "map_option fst (map_of (sessions w) (fst cdp)) = Some dec"
    "map_option fst (map_of (sessions w) (snd cdp)) = Some enc"
    by (simp_all add: sessions_ready_def)
  from r(2) obtain sd where "map_of (sessions w) (fst cdp) = Some (dec, sd)" by auto
  moreover from r(3) obtain se where "map_of (sessions w) (snd cdp) = Some (enc, se)" by auto
  moreover have "getDescriptors conv P w t = (Inr cdp, w)"
    using Some by (rule getDescriptors_registered)
  ultimately show ?thesis using that r(1) Some by blast
qed









subsection \<open>The example platforms\<close>


lemma latin1_ready:
  "sessions_ready latin1_converter latin1_platform empty_world t utf8_to_latin1 latin1_to_utf8"
  by (simp add: sessions_ready_def latin1_converter_def latin1_platform_def empty_world_def)










subsection \<open>Round trip\<close>




subsection \<open>A target that is not empty\<close>

text \<open>
  C2. The claim: a successful \<^verbatim>\<open>fromUTF8\<close> appends the decoded characters after the
  content the target had, and leaves that content intact. The code starts writing at the
  start of the target's data (\<^verbatim>\<open>bytesused\<close> is 0 in the first run of the loop), so on a
  target that is not empty the decoded characters replace the first characters of the old
  content, and the characters added at the end stay \<^verbatim>\<open>charT()\<close>. On the ISO-8859-1
  platform, \<^verbatim>\<open>fromUTF8\<close> of the byte \<open>0x78\<close> ("x") into the target "ab" gives the three
  characters \<open>0x78, 0x62, 0\<close>, not "abx". Only the length is the old length plus the
  number of characters produced.
\<close>

theorem fromUTF8_overwrites_nonempty_target:
  "map_option (\<lambda>(r, w, target). (r, target))
     (fromUTF8 latin1_converter latin1_platform 0 empty_world [0x78] [0x61, 0x62]) =
   Some (Inr (), [0x78, 0x62, 0])"
  by code_simp

subsection \<open>The size of a request\<close>

lemma iconv_fits:
  "iconv w cd inbuf avail = (w', rest, out, r) \<Longrightarrow> length out \<le> avail"
proof (cases "map_of (sessions w) cd")
  case None
  then show "iconv w cd inbuf avail = (w', rest, out, r) \<Longrightarrow> length out \<le> avail"
    by (auto simp: iconv_def)
next
  case (Some s)
  obtain c st where s: "s = (c, st)" by (cases s)
  obtain st1 rest1 out1 r1 where
    eng: "iconv_chars c st inbuf avail = (st1, rest1, out1, r1)"
    by (metis prod_cases4)
  assume "iconv w cd inbuf avail = (w', rest, out, r)"
  then have "out = out1"
    using Some s eng by (simp add: iconv_def)
  then show "length out \<le> avail"
    using iconv_chars_props [OF eng] by simp
qed

text \<open>
  C5. One run of the body of the loop of \<^verbatim>\<open>toUTF8\<close>, from any values of its variables:
  the buffer receives one request, for \<open>max (length inbuf) 4\<close> bytes (at least 4) from the
  current \<^verbatim>\<open>outbuf\<close>; the engine is called on the input left with that many bytes of
  output room, and what it writes (no more than was asked for) is stored where the window
  the buffer gave starts; and the loop goes on from the new variables exactly when the
  engine reported \<open>E2BIG\<close>.
\<close>

theorem toUTF8_body_request:
  assumes "toUTF8_body cd (w, inbuf, outbuf, buf) = ((w', inbuf', outbuf', buf'), count)"
  shows "requests buf' = requests buf @ [(max (length inbuf) 4, outbuf)] \<and>
         4 \<le> max (length inbuf) 4 \<and>
         (\<exists>out. iconv w cd inbuf (max (length inbuf) 4) = (w', inbuf', out, count) \<and>
                length out \<le> max (length inbuf) 4 \<and>
                outbuf' = Some (cursor outbuf + length out) \<and>
                storage buf' =
                  store_at (take (cursor outbuf) (storage buf) @ replicate (max (length inbuf) 4) 0)
                    (cursor outbuf) out) \<and>
         toUTF8_loop cd (w, inbuf, outbuf, buf) =
           (if count = Errno E2BIG then toUTF8_loop cd (w', inbuf', outbuf', buf')
            else Some ((w', inbuf', outbuf', buf'), count))"
proof -
  let ?howMany = "max (length inbuf) 4"
  obtain w1 rest out r where
    eng: "iconv w cd inbuf ?howMany = (w1, rest, out, r)"
    by (metis prod_cases4)
  have fits: "length out \<le> ?howMany"
    using eng by (rule iconv_fits)
  have "toUTF8_body cd (w, inbuf, outbuf, buf) =
      ((w1, rest, Some (cursor outbuf + length out),
        \<lparr>storage = store_at (take (cursor outbuf) (storage buf) @ replicate ?howMany 0)
                      (cursor outbuf) out,
         requests = requests buf @ [(?howMany, outbuf)]\<rparr>), r)"
    using eng by (simp add: toUTF8_body_def getMoreBytes_def Let_def cursor_def)
  with assms have eqs: "w' = w1" "inbuf' = rest" "outbuf' = Some (cursor outbuf + length out)"
    "buf' = \<lparr>storage = store_at (take (cursor outbuf) (storage buf) @ replicate ?howMany 0)
                      (cursor outbuf) out,
         requests = requests buf @ [(?howMany, outbuf)]\<rparr>" "count = r"
    by simp_all
  have loop: "toUTF8_loop cd (w, inbuf, outbuf, buf) =
           (if count = Errno E2BIG then toUTF8_loop cd (w', inbuf', outbuf', buf')
            else Some ((w', inbuf', outbuf', buf'), count))"
    by (subst toUTF8_loop.simps) (simp add: assms)
  show ?thesis
    using eng fits loop unfolding eqs by simp
qed

lemma latin1_shortfall_example:
  "iconv_chars latin1_to_utf8 () [0xE9, 0xE9, 0xE9] (max (length [0xE9, 0xE9, 0xE9::byte]) 4) =
     ((), [0xE9], [0xC3, 0xA9, 0xC3, 0xA9], Errno E2BIG)"
  by code_simp

theorem toUTF8_body_request_witness:
  "\<exists>w'. toUTF8_body 2 (latin1_world, [0xE9, 0xE9, 0xE9], None, empty_buffer) =
          ((w', [0xE9], Some 4,
            \<lparr>storage = [0xC3, 0xA9, 0xC3, 0xA9], requests = [(4, None)]\<rparr>), Errno E2BIG) \<and>
        requests \<lparr>storage = [0xC3, 0xA9, 0xC3, 0xA9], requests = [(4, None)]\<rparr> =
          requests empty_buffer @ [(max (length [0xE9, 0xE9, 0xE9::byte]) 4, None)] \<and>
        toUTF8_loop 2 (latin1_world, [0xE9, 0xE9, 0xE9], None, empty_buffer) =
          toUTF8_loop 2 (w', [0xE9], Some 4,
            \<lparr>storage = [0xC3, 0xA9, 0xC3, 0xA9], requests = [(4, None)]\<rparr>)"
proof -
  have sess: "map_of (sessions latin1_world) 2 = Some (latin1_to_utf8, ())"
    by (simp add: latin1_world_def)
  have eng: "iconv_chars latin1_to_utf8 () [0xE9, 0xE9, 0xE9] (max (length [0xE9, 0xE9, 0xE9::byte]) 4) =
      ((), [0xE9], [0xC3, 0xA9, 0xC3, 0xA9], Errno E2BIG)"
    by (rule latin1_shortfall_example)
  have body: "toUTF8_body 2 (latin1_world, [0xE9, 0xE9, 0xE9], None, empty_buffer) =
      ((with_state latin1_world 2 latin1_to_utf8 (), [0xE9], Some 4,
        \<lparr>storage = [0xC3, 0xA9, 0xC3, 0xA9], requests = [(4, None)]\<rparr>), Errno E2BIG)"
    using toUTF8_body_on_session [OF sess eng, of None empty_buffer]
    by (simp add: store_at_def empty_buffer_def)
  show ?thesis
    using toUTF8_body_request [OF body] body by simp
qed

subsection \<open>Empty input\<close>

text \<open>
  C6. The claim: with no input, \<^verbatim>\<open>fromUTF8\<close> leaves the destination as it was on entry and
  does not grow it. The code does grow it: the loop runs once, and
  \<^verbatim>\<open>target.resize(target.size() + increment)\<close> with the increment \<open>max(0, 4)\<close> adds four
  characters \<^verbatim>\<open>charT()\<close>; only the \<^verbatim>\<open>resize\<close> in the last statement takes them away
  again. On the ISO-8859-1 platform, with no input and the destination "ab", the destination
  is the six characters \<open>61 62 00 00 00 00\<close> when the loop ends.
\<close>

theorem fromUTF8_grows_target_on_empty_input:
  "target_before_trim latin1_converter latin1_platform 0 empty_world [] [0x61, 0x62] =
     Some [0x61, 0x62, 0, 0, 0, 0]"
  by code_simp

text \<open>
  C6, as the code has it. With no input and a destination of whole characters,
  \<^verbatim>\<open>fromUTF8\<close> runs its loop once: the destination grows by four characters \<^verbatim>\<open>charT()\<close>,
  the engine returns a count and writes nothing, and \<^verbatim>\<open>outbytesleft\<close> is the size of the
  four characters. The last \<^verbatim>\<open>resize\<close> removes them: the call succeeds, and the
  destination at exit is the destination at entry (empty when it was empty).
\<close>

theorem fromUTF8_empty_input_grows_then_trims:
  assumes "sessions_ready conv P w t dec enc"
    and "0 < sizeof_charT conv" and "sizeof_charT conv dvd length target"
  shows "\<exists>cdp w1 w3.
           getDescriptors conv P w t = (Inr cdp, w1) \<and>
           fromUTF8_loop (sizeof_charT conv) (fst cdp)
               (iconv_reset w1 (fst cdp), [], None, 0, target) =
             Some ((w3, [], Some 0, 4 * sizeof_charT conv,
                    target @ replicate (4 * sizeof_charT conv) 0), Count 0) \<and>
           target_before_trim conv P t w [] target =
             Some (target @ replicate (4 * sizeof_charT conv) 0) \<and>
           fromUTF8 conv P t w [] target = Some (Inr (), w3, target)"
proof -
  from assms(1) obtain cdp w1 sd se where
    g: "getDescriptors conv P w t = (Inr cdp, w1)"
      "map_of (sessions w1) (fst cdp) = Some (dec, sd)"
    by (rule getDescriptors_ready)
  let ?cd = "fst cdp"
  let ?k = "sizeof_charT conv"
  let ?w2 = "with_state w1 ?cd dec (init_state dec)"
  let ?grown = "target @ replicate (4 * ?k) 0"
  obtain m where m: "length target = ?k * m"
    using assms(3) by (auto simp: dvd_def)
  have size: "string_size ?k target = m"
    using m assms(2) by (simp add: string_size_def)
  have reset: "iconv_reset w1 ?cd = ?w2"
    using g(2) by (rule iconv_reset_on_session)
  have sess: "map_of (sessions ?w2) ?cd = Some (dec, init_state dec)" by simp
  have eng: "iconv_chars dec (init_state dec) [] (0 + max (length ([]::byte list)) 4 * ?k) =
      (init_state dec, [], [], Count 0)"
    by simp
  have grow: "resize ?k target (string_size ?k target + max (length ([]::byte list)) 4) = ?grown"
    using m size by (simp add: resize_def algebra_simps)
  have body: "fromUTF8_body ?k ?cd (?w2, [], None, 0, target) =
      ((?w2, [], Some 0, 4 * ?k, ?grown), Count 0)"
    using fromUTF8_body_on_session [OF sess eng, of None target] grow
    by (simp add: store_at_def)
  then have loop: "fromUTF8_loop ?k ?cd (?w2, [], None, 0, target) =
      Some ((?w2, [], Some 0, 4 * ?k, ?grown), Count 0)"
    by (subst fromUTF8_loop.simps) simp
  have trim: "resize ?k ?grown (string_size ?k ?grown - 4 * ?k div ?k) = target"
    using m assms(2) by (simp add: resize_def string_size_def algebra_simps)
  have call: "fromUTF8 conv P t w [] target = Some (Inr (), ?w2, target)"
    using g(1) reset loop trim by (simp add: fromUTF8_def)
  have before: "target_before_trim conv P t w [] target = Some ?grown"
    using g(1) reset loop by (simp add: target_before_trim_def)
  from g(1) reset loop before call show ?thesis by auto
qed

theorem fromUTF8_empty_input_grows_then_trims_witness:
  "\<exists>cdp w1 w3.
     getDescriptors latin1_converter latin1_platform empty_world 0 = (Inr cdp, w1) \<and>
     fromUTF8_loop 1 (fst cdp) (iconv_reset w1 (fst cdp), [], None, 0, [0x61, 0x62]) =
       Some ((w3, [], Some 0, 4, [0x61, 0x62, 0, 0, 0, 0]), Count 0) \<and>
     target_before_trim latin1_converter latin1_platform 0 empty_world [] [0x61, 0x62] =
       Some [0x61, 0x62, 0, 0, 0, 0] \<and>
     fromUTF8 latin1_converter latin1_platform 0 empty_world [] [0x61, 0x62] =
       Some (Inr (), w3, [0x61, 0x62])"
  using fromUTF8_empty_input_grows_then_trims
    [where t = 0 and target = "[0x61, 0x62]", OF latin1_ready]
  by (simp add: latin1_converter_def eval_nat_numeral)

text \<open>
  C7. With no input, \<^verbatim>\<open>toUTF8\<close> runs the body of its loop once: the buffer receives the
  one request \<open>(4, None)\<close>, the engine returns a count at once (not \<open>E2BIG\<close>, so the loop
  ends), nothing is written into the four bytes given, and the cursor returned is \<open>0\<close>,
  the start of the window the buffer gave.
\<close>

theorem toUTF8_empty_input:
  assumes "sessions_ready conv P w t dec enc"
  shows "\<exists>cdp w1 w3.
           getDescriptors conv P w t = (Inr cdp, w1) \<and>
           toUTF8_body (snd cdp) (iconv_reset w1 (snd cdp), [], None, buf) =
             ((w3, [], Some 0,
               \<lparr>storage = replicate 4 0, requests = requests buf @ [(4, None)]\<rparr>), Count 0) \<and>
           toUTF8 conv P t w [] buf =
             Some (Inr (Some 0), w3,
               \<lparr>storage = replicate 4 0, requests = requests buf @ [(4, None)]\<rparr>)"
proof -
  from assms obtain cdp w1 sd se where
    g: "getDescriptors conv P w t = (Inr cdp, w1)"
      "map_of (sessions w1) (snd cdp) = Some (enc, se)"
    by (rule getDescriptors_ready)
  let ?cd = "snd cdp"
  let ?w2 = "with_state w1 ?cd enc (init_state enc)"
  let ?buf' = "\<lparr>storage = replicate 4 0, requests = requests buf @ [(4, None)]\<rparr>"
  have reset: "iconv_reset w1 ?cd = ?w2"
    using g(2) by (rule iconv_reset_on_session)
  have sess: "map_of (sessions ?w2) ?cd = Some (enc, init_state enc)" by simp
  have eng: "iconv_chars enc (init_state enc) [] (max (length ([]::byte list)) 4) =
      (init_state enc, [], [], Count 0)"
    by simp
  have body: "toUTF8_body ?cd (?w2, [], None, buf) = ((?w2, [], Some 0, ?buf'), Count 0)"
    using toUTF8_body_on_session [OF sess eng, of None buf]
    by (simp add: store_at_def)
  then have loop: "toUTF8_loop ?cd (?w2, [], None, buf) = Some ((?w2, [], Some 0, ?buf'), Count 0)"
    by (subst toUTF8_loop.simps) simp
  have "toUTF8 conv P t w [] buf = Some (Inr (Some 0), ?w2, ?buf')"
    using g(1) reset loop by (simp add: toUTF8_def)
  with g(1) body reset show ?thesis by auto
qed

theorem toUTF8_empty_input_witness:
  "\<exists>cdp w1 w3.
     getDescriptors latin1_converter latin1_platform empty_world 0 = (Inr cdp, w1) \<and>
     toUTF8_body (snd cdp) (iconv_reset w1 (snd cdp), [], None, empty_buffer) =
       ((w3, [], Some 0, \<lparr>storage = replicate 4 0, requests = [(4, None)]\<rparr>), Count 0) \<and>
     toUTF8 latin1_converter latin1_platform 0 empty_world [] empty_buffer =
       Some (Inr (Some 0), w3, \<lparr>storage = replicate 4 0, requests = [(4, None)]\<rparr>)"
  using toUTF8_empty_input [where t = 0 and buf = empty_buffer, OF latin1_ready]
  by (simp add: empty_buffer_def)

subsection \<open>Failures of the engine\<close>







subsection \<open>Termination\<close>







end
